theory Spec2Isabelle
  imports Complex_Main "HOL-Library.Log_Nat"
begin

section \<open>Strings\<close>

text \<open>
  A JavaScript string is a sequence of code units. The model uses \<open>string\<close>, so it covers
  the code units 0 to 255 (Latin-1); \<open>length\<close> is the source's \<open>.length\<close>.
\<close>

text \<open>White space and line terminators stripped by \<open>String.prototype.trim\<close>, among the
  code units below 256: TAB, LF, VT, FF, CR, SPACE and NBSP.\<close>

definition isWhiteSpace :: "char \<Rightarrow> bool" where
  "isWhiteSpace c \<longleftrightarrow>
     c \<in> set [CHR 0x09, CHR 0x0A, CHR 0x0B, CHR 0x0C, CHR 0x0D, CHR 0x20, CHR 0xA0]"

definition trim :: "string \<Rightarrow> string" where
  "trim s = rev (dropWhile isWhiteSpace (rev (dropWhile isWhiteSpace s)))"

text \<open>\<open>s.split(d)\<close> for a one-character separator: never an empty array.\<close>

fun splitOn :: "char \<Rightarrow> string \<Rightarrow> string list" where
  "splitOn d [] = [[]]"
| "splitOn d (c # cs) =
     (if c = d then [] # splitOn d cs
      else (case splitOn d cs of
              [] \<Rightarrow> [[c]]
            | w # ws \<Rightarrow> (c # w) # ws))"

definition startsWith :: "string \<Rightarrow> string \<Rightarrow> bool" where
  "startsWith s p \<longleftrightarrow> take (length p) s = p"

fun includesStr :: "string \<Rightarrow> string \<Rightarrow> bool" where
  "includesStr [] p = (p = [])"
| "includesStr (c # cs) p = (startsWith (c # cs) p \<or> includesStr cs p)"

text \<open>\<open>toLowerCase\<close> on Latin-1: A-Z and the accented capitals 0xC0-0xDE (0xD7, the
  multiplication sign, apart) move up by 32.\<close>

definition lowerChar :: "char \<Rightarrow> char" where
  "lowerChar c =
     (let n = (of_char c :: nat)
      in if (65 \<le> n \<and> n \<le> 90) \<or> (192 \<le> n \<and> n \<le> 222 \<and> n \<noteq> 215)
         then char_of (n + 32) else c)"

definition toLowerCase :: "string \<Rightarrow> string" where
  "toLowerCase s = map lowerChar s"

definition isDigit :: "char \<Rightarrow> bool" where
  "isDigit c \<longleftrightarrow> c \<in> set ''0123456789''"

definition isLowerHex :: "char \<Rightarrow> bool" where
  "isLowerHex c \<longleftrightarrow> c \<in> set ''0123456789abcdef''"

definition digitVal :: "char \<Rightarrow> nat" where
  "digitVal c = (of_char c :: nat) - 48"

text \<open>\<open>xs[i]\<close> on an array: \<open>undefined\<close> (here \<open>None\<close>) out of range.\<close>

definition elemAt :: "'a list \<Rightarrow> nat \<Rightarrow> 'a option" where
  "elemAt xs i = (if i < length xs then Some (xs ! i) else None)"

text \<open>
  \<open>parseInt(x, 10)\<close>: leading white space is skipped, then an optional sign, then the
  longest run of decimal digits; with no digit the result is NaN, here \<open>None\<close>.
  \<open>parseInt(undefined, 10)\<close> is NaN too.
\<close>

definition parseInt :: "string option \<Rightarrow> int option" where
  "parseInt arg =
     (case arg of
        None \<Rightarrow> None
      | Some s \<Rightarrow>
          (let t = dropWhile isWhiteSpace s;
               neg = (case t of [] \<Rightarrow> False | c # _ \<Rightarrow> c = CHR ''-'');
               u = (case t of
                      [] \<Rightarrow> t
                    | c # r \<Rightarrow> if c = CHR ''-'' \<or> c = CHR ''+'' then r else t);
               ds = takeWhile isDigit u
           in if ds = [] then None
              else Some ((if neg then - 1 else 1) *
                         int (foldl (\<lambda>a d. 10 * a + digitVal d) 0 ds))))"

section \<open>Attribution parser (blameParser.ts)\<close>

text \<open>\<open>BlameLineData\<close> and \<open>ContributorMetrics\<close> both have a field \<open>author\<close>;
  it is declared once and both records extend it.\<close>

record Attributed =
  author :: string

record BlameLineData = Attributed +
  lineNumber :: int
  content :: string

text \<open>The locals of \<open>parseBlameOutput\<close>; \<open>currentLineNumber\<close> is a number that can
  be NaN (\<open>None\<close>).\<close>

record ParseState =
  currentCommit :: string
  currentAuthor :: string
  currentLineNumber :: "int option"
  lineIndex :: nat
  result :: "BlameLineData list"

definition uncommitted :: string where
  "uncommitted = ''not commited yet''"

definition normalizeAuthor :: "string \<Rightarrow> string" where
  "normalizeAuthor a =
     (let normalized = trim a
      in if normalized = [] then ''Unknown''
         else (let lower = toLowerCase normalized
               in if includesStr lower ''not committed yet'' \<or> includesStr lower ''external file''
                  then uncommitted
                  else normalized))"

text \<open>\<open>line.match(/^[0-9a-f]{40}/)\<close>\<close>

definition isCommitLine :: "string \<Rightarrow> bool" where
  "isCommitLine line \<longleftrightarrow> 40 \<le> length line \<and> list_all isLowerHex (take 40 line)"

text \<open>\<open>email.replace(/^<|>$/g, '')\<close>: one leading \<open><\<close> and one trailing \<open>>\<close> go.\<close>

definition stripAngles :: "string \<Rightarrow> string" where
  "stripAngles e =
     (let e1 = (case e of [] \<Rightarrow> [] | c # r \<Rightarrow> if c = CHR ''<'' then r else e)
      in if e1 \<noteq> [] \<and> last e1 = CHR ''>'' then butlast e1 else e1)"

definition isSkippedMetadata :: "string \<Rightarrow> bool" where
  "isSkippedMetadata line \<longleftrightarrow>
     startsWith line ''author-time '' \<or>
     startsWith line ''author-tz '' \<or>
     startsWith line ''committer '' \<or>
     startsWith line ''committer-mail '' \<or>
     startsWith line ''committer-time '' \<or>
     startsWith line ''committer-tz '' \<or>
     startsWith line ''summary '' \<or>
     startsWith line ''boundary'' \<or>
     startsWith line ''filename '' \<or>
     startsWith line ''previous ''"

definition positive :: "int option \<Rightarrow> bool" where
  "positive n = (case n of None \<Rightarrow> False | Some k \<Rightarrow> 0 < k)"

definition withinBounds :: "int option \<Rightarrow> nat \<Rightarrow> bool" where
  "withinBounds n len = (case n of None \<Rightarrow> False | Some k \<Rightarrow> k \<le> int len)"

text \<open>The content-line branch (lines 108-127 of the source): push when the tracked
  author and line number are valid, then reset both.\<close>

definition contentLine :: "nat \<Rightarrow> string \<Rightarrow> ParseState \<Rightarrow> ParseState" where
  "contentLine nFileLines line st =
     (let text = drop 1 line;
          st1 = (if currentAuthor st \<noteq> [] \<and> positive (currentLineNumber st)
                 then (if withinBounds (currentLineNumber st) nFileLines
                       then (case currentLineNumber st of
                               None \<Rightarrow> st
                             | Some k \<Rightarrow>
                                 st\<lparr>result := result st @
                                   [\<lparr>author = normalizeAuthor (currentAuthor st),
                                     lineNumber = k, content = text\<rparr>]\<rparr>)
                       else st)
                 else st)
      in st1\<lparr>currentAuthor := [], currentLineNumber := Some 0,
             lineIndex := lineIndex st1 + 1\<rparr>)"

text \<open>One iteration of the \<open>for\<close> loop over the lines of the blame output, with the
  source's order of tests.\<close>

definition parseLine :: "nat \<Rightarrow> ParseState \<Rightarrow> string \<Rightarrow> ParseState" where
  "parseLine nFileLines st line =
     (if trim line = [] then st
      else if isCommitLine line then
        (let parts = splitOn CHR '' '' line
         in st\<lparr>currentCommit := (case parts of [] \<Rightarrow> [] | p # _ \<Rightarrow> p),
               currentLineNumber := parseInt (elemAt parts 2)\<rparr>)
      else if startsWith line ''author '' then st\<lparr>currentAuthor := drop 7 line\<rparr>
      else if startsWith line ''author-mail '' then
        (if currentAuthor st = [] then st\<lparr>currentAuthor := stripAngles (drop 12 line)\<rparr>
         else st)
      else if isSkippedMetadata line then st
      else if startsWith line [CHR 0x09] then contentLine nFileLines line st
      else st)"

definition initialState :: ParseState where
  "initialState = \<lparr>currentCommit = [], currentAuthor = [], currentLineNumber = Some 0,
                   lineIndex = 0, result = []\<rparr>"

definition parsedRecords :: "string \<Rightarrow> string \<Rightarrow> BlameLineData list" where
  "parsedRecords blameOutput fileContent =
     result (foldl (parseLine (length (splitOn CHR 0x0A fileContent))) initialState
               (splitOn CHR 0x0A blameOutput))"

text \<open>The fallback loop (lines 131-141): one record per line of the file.\<close>

definition fallbackRecords :: "string \<Rightarrow> BlameLineData list" where
  "fallbackRecords fileContent =
     (let fileLines = splitOn CHR 0x0A fileContent
      in map (\<lambda>i. \<lparr>author = uncommitted, lineNumber = int i + 1, content = fileLines ! i\<rparr>)
           [0 ..< length fileLines])"

definition parseBlameOutput :: "string \<Rightarrow> string \<Rightarrow> BlameLineData list" where
  "parseBlameOutput blameOutput fileContent =
     (let res = parsedRecords blameOutput fileContent
      in if length res = 0 \<and> trim fileContent \<noteq> [] then res @ fallbackRecords fileContent
         else res)"

section \<open>Metrics aggregator (metrics.ts)\<close>

record ContributorMetrics = Attributed +
  lines :: nat
  characters :: nat
  percentage :: int

text \<open>A JavaScript \<open>Map\<close> with string keys, in insertion order: \<open>set\<close> on a key that is
  present keeps its place, \<open>set\<close> on a new key appends.\<close>

type_synonym 'v jsmap = "(string \<times> 'v) list"

definition mapGet :: "'v jsmap \<Rightarrow> string \<Rightarrow> 'v option" where
  "mapGet m k = map_of m k"

definition mapSet :: "string \<Rightarrow> 'v \<Rightarrow> 'v jsmap \<Rightarrow> 'v jsmap" where
  "mapSet k v m =
     (if k \<in> set (map fst m) then map (\<lambda>(k', v'). if k' = k then (k', v) else (k', v')) m
      else m @ [(k, v)])"

definition mapDelete :: "string \<Rightarrow> 'v jsmap \<Rightarrow> 'v jsmap" where
  "mapDelete k m = filter (\<lambda>(k', v'). k' \<noteq> k) m"

definition isBlankLine :: "string \<Rightarrow> bool" where
  "isBlankLine c \<longleftrightarrow> length (trim c) = 0"

text \<open>The body of the grouping loop; the value object \<open>{lines, characters}\<close> is a pair.\<close>

definition addLine :: "bool \<Rightarrow> (nat \<times> nat) jsmap \<Rightarrow> BlameLineData \<Rightarrow> (nat \<times> nat) jsmap" where
  "addLine ignoreBlankLines authorStats lineData =
     (if ignoreBlankLines \<and> isBlankLine (content lineData) then authorStats
      else (let existing = (case mapGet authorStats (author lineData) of
                              None \<Rightarrow> (0, 0)
                            | Some s \<Rightarrow> s)
            in mapSet (author lineData)
                 (fst existing + 1, snd existing + length (content lineData)) authorStats))"

subsection \<open>Numbers\<close>

text \<open>
  Counts are integers far below \<open>2^53\<close>, exact as JavaScript numbers, and are modelled
  by \<open>nat\<close>. The percentage is computed in IEEE-754 binary64: \<open>binary64 x\<close> is the double
  nearest to the rational \<open>x\<close> (ties to even), for \<open>x\<close> in the range of normal doubles.
\<close>

definition pow2 :: "int \<Rightarrow> rat" where
  "pow2 e = (if 0 \<le> e then 2 ^ nat e else 1 / 2 ^ nat (- e))"

text \<open>For \<open>0 < x\<close>: the exponent \<open>e\<close> with \<open>2^e \<le> x < 2^(e+1)\<close>.\<close>

definition floorLog2 :: "rat \<Rightarrow> int" where
  "floorLog2 x =
     (let (n, d) = quotient_of x; b = bitlen n - bitlen d
      in if pow2 b \<le> x then b else b - 1)"

definition roundHalfEven :: "rat \<Rightarrow> int" where
  "roundHalfEven x =
     (let f = \<lfloor>x\<rfloor>; r = x - of_int f
      in if r < 1 / 2 then f
         else if 1 / 2 < r then f + 1
         else if even f then f else f + 1)"

definition binary64 :: "rat \<Rightarrow> rat" where
  "binary64 x =
     (if x = 0 then 0
      else (let a = \<bar>x\<bar>; e = floorLog2 a;
                m = roundHalfEven (a * pow2 (52 - e))
            in sgn x * of_int m * pow2 (e - 52)))"

text \<open>\<open>Math.round\<close>: the nearest integer, a tie going up.\<close>

definition mathRound :: "rat \<Rightarrow> int" where
  "mathRound x = \<lfloor>x + 1 / 2\<rfloor>"

text \<open>\<open>totalValue > 0 ? Math.round((countValue / totalValue) * 100) : 0\<close>\<close>

definition percentageOf :: "nat \<Rightarrow> nat \<Rightarrow> int" where
  "percentageOf countValue totalValue =
     (if 0 < totalValue
      then mathRound (binary64 (binary64 (of_nat countValue / of_nat totalValue) * 100))
      else 0)"

subsection \<open>Sorting\<close>

text \<open>\<open>Array.prototype.sort\<close> with a comparator is stable: elements that compare equal
  keep their order.\<close>

fun insertSorted :: "('a \<Rightarrow> 'a \<Rightarrow> int) \<Rightarrow> 'a \<Rightarrow> 'a list \<Rightarrow> 'a list" where
  "insertSorted cmp x [] = [x]"
| "insertSorted cmp x (y # ys) =
     (if cmp x y \<le> 0 then x # y # ys else y # insertSorted cmp x ys)"

definition sortWith :: "('a \<Rightarrow> 'a \<Rightarrow> int) \<Rightarrow> 'a list \<Rightarrow> 'a list" where
  "sortWith cmp xs = foldr (insertSorted cmp) xs []"

subsection \<open>calculateContributions\<close>

text \<open>The value the active count mode ranks by.\<close>

definition countValueOf :: "string \<Rightarrow> ContributorMetrics \<Rightarrow> nat" where
  "countValueOf countMode m =
     (if countMode = ''characters'' then characters m else lines m)"

definition compareMetrics :: "string \<Rightarrow> ContributorMetrics \<Rightarrow> ContributorMetrics \<Rightarrow> int" where
  "compareMetrics countMode a b =
     (if countMode = ''characters'' then int (characters b) - int (characters a)
      else int (lines b) - int (lines a))"

definition groupByAuthor :: "bool \<Rightarrow> BlameLineData list \<Rightarrow> (nat \<times> nat) jsmap" where
  "groupByAuthor ignoreBlankLines blameData = foldl (addLine ignoreBlankLines) [] blameData"

definition toMetrics :: "string \<Rightarrow> (nat \<times> nat) jsmap \<Rightarrow> ContributorMetrics list" where
  "toMetrics countMode authorStats =
     (let totalLines = sum_list (map (\<lambda>(a, s). fst s) authorStats);
          totalCharacters = sum_list (map (\<lambda>(a, s). snd s) authorStats)
      in map (\<lambda>(a, s).
            (let countValue = (if countMode = ''characters'' then snd s else fst s);
                 totalValue = (if countMode = ''characters'' then totalCharacters else totalLines)
             in \<lparr>author = a, lines = fst s, characters = snd s,
                 percentage = percentageOf countValue totalValue\<rparr>))
           authorStats)"

definition calculateContributions ::
    "string \<Rightarrow> bool \<Rightarrow> BlameLineData list \<Rightarrow> ContributorMetrics list" where
  "calculateContributions countMode ignoreBlankLines blameData =
     (if length blameData = 0 then []
      else sortWith (compareMetrics countMode)
             (toMetrics countMode (groupByAuthor ignoreBlankLines blameData)))"

section \<open>Result cache (cache.ts)\<close>

record CacheEntry =
  data :: "ContributorMetrics list"
  timestamp :: int
  ttl :: int

type_synonym Cache = "CacheEntry jsmap"

definition defaultTTL :: int where
  "defaultTTL = 30000"

definition maxCacheSize :: nat where
  "maxCacheSize = 100"

text \<open>Decimal rendering of a number inside a template string.\<close>

function showDigits :: "int \<Rightarrow> string" where
  "showDigits i =
     (if i < 10 then [''0123456789'' ! nat i]
      else showDigits (i div 10) @ [''0123456789'' ! nat (i mod 10)])"
  by pat_completeness auto
termination
  by (relation "measure nat") auto

declare showDigits.simps [simp del]

definition showInt :: "int \<Rightarrow> string" where
  "showInt i = (if i < 0 then CHR ''-'' # showDigits (- i) else showDigits i)"

definition showNat :: "nat \<Rightarrow> string" where
  "showNat n = showDigits (int n)"

text \<open>
  What the extension asks of its host: the file system's \<open>statSync\<close> (modification time
  in milliseconds and size; \<open>None\<close> when it throws), the MD5 digest in hexadecimal, and
  the four git queries of \<open>GitRunner\<close>. \<open>getBlame\<close> receives the path and the content
  of the temporary file passed with \<open>--contents\<close>, if any, and returns the output or the
  message of the error it throws.
\<close>

record Host =
  statSync :: "string \<Rightarrow> (int \<times> nat) option"
  md5hex :: "string \<Rightarrow> string"
  isInGitRepository :: "string \<Rightarrow> bool"
  isFileTracked :: "string \<Rightarrow> bool"
  isFileModified :: "string \<Rightarrow> bool"
  getBlame :: "string \<Rightarrow> string option \<Rightarrow> string + string"

definition getCacheKey :: "'a Host_scheme \<Rightarrow> string \<Rightarrow> string \<Rightarrow> string" where
  "getCacheKey host filePath fileContent =
     (case statSync host filePath of
        Some (mtime, sz) \<Rightarrow>
          filePath @ '':'' @ showInt mtime @ '':'' @ showNat sz @ '':'' @
            take 8 (md5hex host fileContent)
      | None \<Rightarrow> filePath @ '':content:'' @ md5hex host fileContent)"

text \<open>\<open>get\<close> at time \<open>now\<close>: the value found, if any, and the cache afterwards (an
  expired entry is deleted).\<close>

definition cacheGet :: "string \<Rightarrow> int \<Rightarrow> Cache \<Rightarrow> ContributorMetrics list option \<times> Cache" where
  "cacheGet key now c =
     (case mapGet c key of
        None \<Rightarrow> (None, c)
      | Some entry \<Rightarrow>
          if now - timestamp entry > ttl entry then (None, mapDelete key c)
          else (Some (data entry), c))"

text \<open>\<open>set\<close> at time \<open>now\<close>. \<open>if (oldestKey)\<close> is false for the empty string.\<close>

definition cacheSet :: "string \<Rightarrow> ContributorMetrics list \<Rightarrow> int \<Rightarrow> int \<Rightarrow> Cache \<Rightarrow> Cache" where
  "cacheSet key d t now c =
     (let c1 = (if length c \<ge> maxCacheSize
                then (case map fst c of
                        [] \<Rightarrow> c
                      | oldestKey # _ \<Rightarrow> if oldestKey \<noteq> [] then mapDelete oldestKey c else c)
                else c)
      in mapSet key \<lparr>data = d, timestamp = now, ttl = t\<rparr> c1)"

definition invalidate :: "string \<Rightarrow> Cache \<Rightarrow> Cache" where
  "invalidate filePath c =
     (let keysToDelete = filter (\<lambda>key. startsWith key (filePath @ '':'')) (map fst c)
      in foldl (\<lambda>c' key. mapDelete key c') c keysToDelete)"

definition clear :: "Cache \<Rightarrow> Cache" where
  "clear c = []"

definition cleanup :: "int \<Rightarrow> Cache \<Rightarrow> Cache" where
  "cleanup now c =
     (let keysToDelete = map fst (filter (\<lambda>(key, entry). now - timestamp entry > ttl entry) c)
      in foldl (\<lambda>c' key. mapDelete key c') c keysToDelete)"

section \<open>Orchestration (extension.ts)\<close>

record Config =
  maxFileSizeKB :: rat
  countMode :: string
  ignoreBlankLines :: bool

text \<open>The state the module keeps between requests: the cache, and how many times
  \<open>git blame\<close> has been run.\<close>

record World =
  cache :: Cache
  blameCalls :: nat

datatype Outcome =
    FileTooLarge int rat
  | NoGit
  | Contributors "ContributorMetrics list"
  | Failed string
  | NoActiveFile
  | NoData

text \<open>\<open>Buffer.byteLength(s, 'utf8')\<close>: a code unit below 128 is one byte, the others
  of Latin-1 two.\<close>

definition byteLength :: "string \<Rightarrow> nat" where
  "byteLength s = sum_list (map (\<lambda>c. if (of_char c :: nat) < 128 then 1 else 2) s)"

text \<open>\<open>BlameParser.getBlameData\<close>: the temporary file is there when the file is
  untracked or modified; an error of \<open>getBlame\<close> propagates.\<close>

definition getBlameData ::
    "'a Host_scheme \<Rightarrow> string \<Rightarrow> string \<Rightarrow> World \<Rightarrow> (string + BlameLineData list) \<times> World" where
  "getBlameData host filePath fileContent w =
     (let tempFile = (if \<not> isFileTracked host filePath \<or> isFileModified host filePath
                      then Some fileContent else None);
          w1 = w\<lparr>blameCalls := blameCalls w + 1\<rparr>
      in case getBlame host filePath tempFile of
           Inl err \<Rightarrow> (Inl err, w1)
         | Inr blameOutput \<Rightarrow> (Inr (parseBlameOutput blameOutput fileContent), w1))"

text \<open>\<open>updateContributors\<close>; \<open>nowGet\<close> and \<open>nowSet\<close> are the values of \<open>Date.now()\<close>
  inside \<open>cache.get\<close> and \<open>cache.set\<close>.\<close>

definition updateContributors ::
    "Config \<Rightarrow> 'a Host_scheme \<Rightarrow> int \<Rightarrow> int \<Rightarrow> string \<Rightarrow> string \<Rightarrow> World \<Rightarrow> Outcome \<times> World" where
  "updateContributors cfg host nowGet nowSet filePath fileContent w =
     (let fileSizeKB = rat_of_nat (byteLength fileContent) / 1024
      in if fileSizeKB > maxFileSizeKB cfg
         then (FileTooLarge (mathRound fileSizeKB) (maxFileSizeKB cfg), w)
         else if \<not> isInGitRepository host filePath then (NoGit, w)
         else (let cacheKey = getCacheKey host filePath fileContent;
                   (cachedResult, c1) = cacheGet cacheKey nowGet (cache w);
                   w1 = w\<lparr>cache := c1\<rparr>
               in case cachedResult of
                    Some contributors \<Rightarrow> (Contributors contributors, w1)
                  | None \<Rightarrow>
                      (case getBlameData host filePath fileContent w1 of
                         (Inl err, w2) \<Rightarrow> (Failed err, w2)
                       | (Inr blameData, w2) \<Rightarrow>
                           (let contributors =
                                  calculateContributions (countMode cfg) (ignoreBlankLines cfg)
                                    blameData
                            in (Contributors contributors,
                                w2\<lparr>cache := cacheSet cacheKey contributors defaultTTL nowSet
                                               (cache w2)\<rparr>)))))"

text \<open>\<open>showContributors\<close>; \<open>editor\<close> is the active editor's path and text, \<open>selected\<close>
  the label picked in the list, if any.\<close>

definition showContributors ::
    "Config \<Rightarrow> 'a Host_scheme \<Rightarrow> int \<Rightarrow> int \<Rightarrow> (string \<times> string) option \<Rightarrow> string option \<Rightarrow>
       World \<Rightarrow> Outcome \<times> World" where
  "showContributors cfg host nowGet nowSet editor selected w =
     (case editor of
        None \<Rightarrow> (NoActiveFile, w)
      | Some (filePath, fileContent) \<Rightarrow>
          if \<not> isInGitRepository host filePath then (NoGit, w)
          else (let cacheKey = getCacheKey host filePath fileContent;
                    (cachedResult, c1) = cacheGet cacheKey nowGet (cache w);
                    w1 = w\<lparr>cache := c1\<rparr>;
                    (fetched, w3) =
                      (case cachedResult of
                         Some contributors \<Rightarrow> (Inr contributors, w1)
                       | None \<Rightarrow>
                           (case getBlameData host filePath fileContent w1 of
                              (Inl err, w2) \<Rightarrow> (Inl err, w2)
                            | (Inr blameData, w2) \<Rightarrow>
                                (let contributors =
                                       calculateContributions (countMode cfg)
                                         (ignoreBlankLines cfg) blameData
                                 in (Inr contributors,
                                     w2\<lparr>cache := cacheSet cacheKey contributors defaultTTL
                                                    nowSet (cache w2)\<rparr>))))
                in case fetched of
                     Inl err \<Rightarrow> (Failed err, w3)
                   | Inr contributors \<Rightarrow>
                       if length contributors = 0 then (NoData, w3)
                       else (case selected of
                               None \<Rightarrow> (Contributors contributors, w3)
                             | Some label \<Rightarrow>
                                 (Contributors contributors,
                                  snd (getBlameData host filePath fileContent w3)))))"

text \<open>\<open>handleDocumentSave\<close> for the document of the active editor: invalidate, then
  update.\<close>

definition handleDocumentSave ::
    "Config \<Rightarrow> 'a Host_scheme \<Rightarrow> int \<Rightarrow> int \<Rightarrow> string \<Rightarrow> string \<Rightarrow> World \<Rightarrow> Outcome \<times> World" where
  "handleDocumentSave cfg host nowGet nowSet filePath fileContent w =
     updateContributors cfg host nowGet nowSet filePath fileContent
       (w\<lparr>cache := invalidate filePath (cache w)\<rparr>)"

section \<open>Auxiliary notions and sample inputs\<close>


text \<open>One block of \<open>git blame --line-porcelain\<close> for line \<open>n\<close>.\<close>

definition porcelainBlock :: "string \<Rightarrow> nat \<Rightarrow> string \<Rightarrow> string" where
  "porcelainBlock who n text =
     replicate 40 CHR ''a'' @ '' '' @ showNat n @ '' '' @ showNat n @ '' 1'' @ [CHR 0x0A] @
     ''author '' @ who @ [CHR 0x0A] @
     ''author-mail <'' @ who @ ''@example.org>'' @ [CHR 0x0A] @
     ''summary change'' @ [CHR 0x0A] @
     ''filename f.txt'' @ [CHR 0x0A] @
     CHR 0x09 # text @ [CHR 0x0A]"

definition twoLineFile :: string where
  "twoLineFile = ''a'' @ [CHR 0x0A] @ ''b''"

text \<open>A file whose second line is empty, and its blame: Alice wrote lines 1 and 3, Bob
  the empty line 2.\<close>

definition threeLineFile :: string where
  "threeLineFile = ''x'' @ [CHR 0x0A, CHR 0x0A] @ ''y''"

definition threeBlocks :: string where
  "threeBlocks = porcelainBlock ''Alice'' 1 ''x'' @ porcelainBlock ''Bob'' 2 [] @
                 porcelainBlock ''Alice'' 3 ''y''"

text \<open>Lines the aggregator counts: all of them, or the non-blank ones.\<close>

definition counted :: "bool \<Rightarrow> BlameLineData \<Rightarrow> bool" where
  "counted ign r \<longleftrightarrow> \<not> (ign \<and> isBlankLine (content r))"


text \<open>Bob's line first, then three lines of Alice's.\<close>

definition aliceBobLines :: "BlameLineData list" where
  "aliceBobLines =
     [\<lparr>author = ''Bob'', lineNumber = 1, content = ''b''\<rparr>,
      \<lparr>author = ''Alice'', lineNumber = 2, content = ''a1''\<rparr>,
      \<lparr>author = ''Alice'', lineNumber = 3, content = ''a2''\<rparr>,
      \<lparr>author = ''Alice'', lineNumber = 4, content = ''a3''\<rparr>]"


text \<open>The cache states the operations of \<open>ContributorCache\<close> lead to from the empty
  cache, storing under non-empty keys, as every fingerprint is.\<close>

inductive reachable :: "Cache \<Rightarrow> bool" where
  start: "reachable []"
| store: "reachable c \<Longrightarrow> key \<noteq> [] \<Longrightarrow> reachable (cacheSet key d t now c)"
| lookup: "reachable c \<Longrightarrow> reachable (snd (cacheGet key now c))"
| invalidated: "reachable c \<Longrightarrow> reachable (invalidate filePath c)"
| swept: "reachable c \<Longrightarrow> reachable (cleanup now c)"
| cleared: "reachable c \<Longrightarrow> reachable (clear c)"

text \<open>A host for the examples: every file is tracked, unmodified and 11 bytes long, its
  text is \<open>hello world\<close> (whose MD5 digest \<open>md5hex\<close> returns) and its blame is one
  block of Alice's.\<close>

definition demoHost :: Host where
  "demoHost =
     \<lparr>statSync = (\<lambda>p. Some (1700000000000, 11)),
      md5hex = (\<lambda>s. ''5eb63bbbe01eeed093cb22bb8f5acdc3''),
      isInGitRepository = (\<lambda>p. True),
      isFileTracked = (\<lambda>p. True),
      isFileModified = (\<lambda>p. False),
      getBlame = (\<lambda>p t. Inr (porcelainBlock ''Alice'' 1 ''hello world''))\<rparr>"

definition defaultConfig :: Config where
  "defaultConfig = \<lparr>maxFileSizeKB = 2048, countMode = ''lines'', ignoreBlankLines = False\<rparr>"

definition emptyWorld :: World where
  "emptyWorld = \<lparr>cache = [], blameCalls = 0\<rparr>"

definition aliceAlone :: "ContributorMetrics list" where
  "aliceAlone = [\<lparr>author = ''Alice'', lines = 1, characters = 11, percentage = 100\<rparr>]"

text \<open>A text of 3000 KB.\<close>

definition bigContent :: string where
  "bigContent = replicate (3000 * 1024) CHR ''a''"

text \<open>The cache after storing the results of \<open>n\<close> different files.\<close>

primrec fillCache :: "nat \<Rightarrow> Cache" where
  "fillCache 0 = []"
| "fillCache (Suc n) =
     cacheSet (getCacheKey demoHost (''/w/f'' @ showNat n) ''hello world'') aliceAlone
       defaultTTL (int n) (fillCache n)"

text \<open>The invariant of the cache: within the bound, one entry per key, no empty key.\<close>

definition cacheInv :: "Cache \<Rightarrow> bool" where
  "cacheInv c \<longleftrightarrow>
     length c \<le> maxCacheSize \<and> distinct (map fst c) \<and> [] \<notin> set (map fst c)"

text \<open>The state after the first request for \<open>/w/f.txt\<close> on \<open>demoHost\<close>, its result
  stored at time 5.\<close>

definition worldAfterFirstRun :: World where
  "worldAfterFirstRun =
     \<lparr>cache = [(''/w/f.txt:1700000000000:11:5eb63bbb'',
                 \<lparr>data = aliceAlone, timestamp = 5, ttl = 30000\<rparr>)],
      blameCalls = 1\<rparr>"

section \<open>Properties of the parser\<close>







lemma list_of_two: "length xs = 2 \<Longrightarrow> xs ! 0 = a \<Longrightarrow> xs ! 1 = b \<Longrightarrow> xs = [a, b]"
  by (cases xs; cases "tl xs") auto

text \<open>What the content-line branch does to the output: it appends one record exactly when
  the tracked author is non-empty and the tracked line number is positive and within the
  file, and appends nothing otherwise.\<close>

lemma contentLine_result:
  "result (contentLine n line st) =
     (case currentLineNumber st of
        None \<Rightarrow> result st
      | Some k \<Rightarrow>
          if currentAuthor st \<noteq> [] \<and> 0 < k \<and> k \<le> int n
          then result st @ [\<lparr>author = normalizeAuthor (currentAuthor st), lineNumber = k,
                              content = drop 1 line\<rparr>]
          else result st)"
  by (simp add: contentLine_def Let_def positive_def withinBounds_def split: option.splits)

text \<open>A line that is blank after trimming never reaches that branch: the loop's first
  test skips it, whatever the tracked author and line number.\<close>

lemma parseLine_blank: "trim line = [] \<Longrightarrow> parseLine n st line = st"
  by (simp add: parseLine_def)

lemma trim_blank:
  assumes "list_all isWhiteSpace s"
  shows "trim s = []"
proof -
  from assms have d: "dropWhile isWhiteSpace s = []"
    by (simp add: list_all_iff dropWhile_eq_Nil_conv)
  show ?thesis unfolding trim_def d by simp
qed

text \<open>A content line whose text is blank leaves the state as it is: no record, and no
  reset of the tracked author and line number.\<close>

lemma parseLine_blank_content:
  "list_all isWhiteSpace text \<Longrightarrow> parseLine n st (CHR 0x09 # text) = st"
  by (rule parseLine_blank, rule trim_blank) (simp add: isWhiteSpace_def)

text \<open>A content line whose text is not blank is accepted by the rule of the claim.\<close>

lemma parseLine_content:
  assumes "trim (CHR 0x09 # text) \<noteq> []"
  shows "parseLine n st (CHR 0x09 # text) = contentLine n (CHR 0x09 # text) st"
  using assms
  by (simp add: parseLine_def isCommitLine_def isLowerHex_def startsWith_def
        isSkippedMetadata_def)

text \<open>
  C1. The claim: a content line is accepted if and only if the tracked author is
  non-empty and the tracked line number is positive and within the file, and in
  particular a well-formed block whose content is a blank line is accepted. The code
  drops such a block: in the blame of the three-line file below, Bob's block for the
  empty line 2 has a valid author and an in-bounds line number, and the parser's output
  has no record for it.
\<close>

theorem blank_content_line_dropped:
  "parseBlameOutput threeBlocks threeLineFile =
     [\<lparr>author = ''Alice'', lineNumber = 1, content = ''x''\<rparr>,
      \<lparr>author = ''Alice'', lineNumber = 3, content = ''y''\<rparr>]"
  by code_simp

text \<open>
  C4. When parsing yields no record and the file content is not blank, the parser returns
  one record per line of the content, in order, numbered from 1, each attributed to the
  sentinel \<open>not commited yet\<close>.
\<close>

theorem parser_fallback:
  assumes "parsedRecords out fc = []" and "trim fc \<noteq> []"
  shows "length (parseBlameOutput out fc) = length (splitOn CHR 0x0A fc) \<and>
         (\<forall>i < length (splitOn CHR 0x0A fc).
            parseBlameOutput out fc ! i =
              \<lparr>author = ''not commited yet'', lineNumber = int i + 1,
               content = splitOn CHR 0x0A fc ! i\<rparr>)"
  using assms by (simp add: parseBlameOutput_def fallbackRecords_def Let_def uncommitted_def)

theorem parser_fallback_witness:
  "parsedRecords ''fatal: no such path'' twoLineFile = [] \<and>
   trim twoLineFile \<noteq> [] \<and>
   parseBlameOutput ''fatal: no such path'' twoLineFile =
     [\<lparr>author = ''not commited yet'', lineNumber = 1, content = ''a''\<rparr>,
      \<lparr>author = ''not commited yet'', lineNumber = 2, content = ''b''\<rparr>]"
proof -
  have h1: "parsedRecords ''fatal: no such path'' twoLineFile = []"
    by code_simp
  have h2: "trim twoLineFile \<noteq> []"
    by code_simp
  have n: "splitOn CHR 0x0A twoLineFile = [''a'', ''b'']"
    by code_simp
  note f = parser_fallback [OF h1 h2, unfolded n]
  have len: "length (parseBlameOutput ''fatal: no such path'' twoLineFile) = 2"
    using f by simp
  have e0: "parseBlameOutput ''fatal: no such path'' twoLineFile ! 0 =
      \<lparr>author = ''not commited yet'', lineNumber = 1, content = ''a''\<rparr>"
    using f [THEN conjunct2, rule_format, of 0] by simp
  have e1: "parseBlameOutput ''fatal: no such path'' twoLineFile ! 1 =
      \<lparr>author = ''not commited yet'', lineNumber = 2, content = ''b''\<rparr>"
    using f [THEN conjunct2, rule_format, of 1] by simp
  show ?thesis
    using h1 h2 list_of_two [OF len e0 e1] by blast
qed



section \<open>Properties of the aggregator\<close>

subsection \<open>Sorting and grouping\<close>

lemma sum_insertSorted:
  "sum_list (map f (insertSorted cmp x ys)) = (f x :: nat) + sum_list (map f ys)"
  by (induction ys) simp_all

lemma sum_sortWith: "sum_list (map f (sortWith cmp xs)) = sum_list (map (f :: 'a \<Rightarrow> nat) xs)"
  unfolding sortWith_def by (induction xs) (simp_all add: sum_insertSorted)

lemma set_insertSorted: "set (insertSorted cmp x ys) = insert x (set ys)"
  by (induction ys) auto


lemma compareMetrics_le:
  "compareMetrics mode a b \<le> 0 \<longleftrightarrow> countValueOf mode b \<le> countValueOf mode a"
  by (simp add: compareMetrics_def countValueOf_def)

lemma sorted_insertSorted:
  "sorted_wrt (\<lambda>a b. countValueOf mode b \<le> countValueOf mode a) ys \<Longrightarrow>
   sorted_wrt (\<lambda>a b. countValueOf mode b \<le> countValueOf mode a)
     (insertSorted (compareMetrics mode) x ys)"
proof (induction ys)
  case Nil
  show ?case by simp
next
  case (Cons y ys)
  show ?case
  proof (cases "compareMetrics mode x y \<le> 0")
    case True
    then have "countValueOf mode y \<le> countValueOf mode x"
      by (simp add: compareMetrics_le)
    with Cons.prems True show ?thesis by fastforce
  next
    case False
    then have "countValueOf mode x \<le> countValueOf mode y"
      by (simp add: compareMetrics_le)
    with Cons False show ?thesis by (auto simp: set_insertSorted)
  qed
qed

lemma sorted_sortWith:
  "sorted_wrt (\<lambda>a b. countValueOf mode b \<le> countValueOf mode a)
     (sortWith (compareMetrics mode) xs)"
  unfolding sortWith_def by (induction xs) (simp_all add: sorted_insertSorted)

lemma map_lines_toMetrics: "map lines (toMetrics mode m) = map (\<lambda>(a, s). fst s) m"
  by (simp add: toMetrics_def Let_def case_prod_unfold)

lemma map_characters_toMetrics: "map characters (toMetrics mode m) = map (\<lambda>(a, s). snd s) m"
  by (simp add: toMetrics_def Let_def case_prod_unfold)

lemma mapSet_new:
  "k \<notin> set (map fst m) \<Longrightarrow> mapSet k v m = m @ [(k, v)]"
  by (simp add: mapSet_def)

lemma sum_replace:
  "distinct (map fst m) \<Longrightarrow> map_of m k = Some old \<Longrightarrow>
   sum_list (map (\<lambda>(a, s). g s) (map (\<lambda>(k', v'). if k' = k then (k', v) else (k', v')) m)) + g old
     = sum_list (map (\<lambda>(a, s). (g s :: nat)) m) + g v"
proof (induction m)
  case Nil
  then show ?case by simp
next
  case (Cons e m)
  obtain k0 v0 where e: "e = (k0, v0)" by (cases e)
  show ?case
  proof (cases "k0 = k")
    case True
    with Cons.prems e have "old = v0" by simp
    moreover from Cons.prems e True have "k \<notin> fst ` set m" by simp
    then have "map (\<lambda>(k', v'). if k' = k then (k', v) else (k', v')) m = m"
      by (induction m) auto
    ultimately show ?thesis using e True by simp
  next
    case False
    with Cons e show ?thesis by simp
  qed
qed

lemma map_fst_replace:
  "map (fst \<circ> (\<lambda>(k', v'). if k' = k then (k', v) else (k', v'))) m = map fst m"
  by (induction m) auto

lemma distinct_mapSet:
  "distinct (map fst m) \<Longrightarrow> distinct (map fst (mapSet k v m))"
  by (simp add: mapSet_def map_fst_replace)

lemma sum_mapSet:
  assumes "distinct (map fst m)"
  shows "sum_list (map (\<lambda>(a, s). g s) (mapSet k v m)) +
           (case map_of m k of None \<Rightarrow> 0 | Some old \<Rightarrow> g old)
         = sum_list (map (\<lambda>(a, s). (g s :: nat)) m) + g v"
proof (cases "map_of m k")
  case None
  then have "k \<notin> set (map fst m)" by (simp add: map_of_eq_None_iff)
  with None show ?thesis by (simp add: mapSet_new)
next
  case (Some old)
  then have "k \<in> set (map fst m)" by (metis map_of_eq_None_iff option.distinct(1) set_map)
  with Some sum_replace [OF assms Some, of g v] show ?thesis
    by (simp add: mapSet_def)
qed

lemma addLine_distinct:
  "distinct (map fst m) \<Longrightarrow> distinct (map fst (addLine ign m r))"
  by (simp add: addLine_def Let_def distinct_mapSet)

lemma addLine_lines:
  assumes "distinct (map fst m)"
  shows "sum_list (map (\<lambda>(a, s). fst s) (addLine ign m r)) =
         sum_list (map (\<lambda>(a, s). fst s) m) + (if counted ign r then 1 else 0)"
proof (cases "counted ign r")
  case False
  then show ?thesis by (auto simp: addLine_def counted_def)
next
  case True
  then have skip: "\<not> (ign \<and> isBlankLine (content r))"
    by (simp add: counted_def)
  show ?thesis
  proof (cases "map_of m (author r)")
    case None
    with sum_mapSet [OF assms, of fst "author r" "(1, length (content r))"] True skip
    show ?thesis by (simp add: addLine_def Let_def mapGet_def)
  next
    case (Some old)
    with sum_mapSet [OF assms, of fst "author r" "(fst old + 1, snd old + length (content r))"]
      True skip
    show ?thesis by (simp add: addLine_def Let_def mapGet_def)
  qed
qed

lemma foldl_addLine:
  "distinct (map fst m) \<Longrightarrow>
   sum_list (map (\<lambda>(a, s). fst s) (foldl (addLine ign) m rs)) =
     sum_list (map (\<lambda>(a, s). fst s) m) + length (filter (counted ign) rs)"
  by (induction rs arbitrary: m) (simp_all add: addLine_lines addLine_distinct)

lemma lines_counted:
  "sum_list (map lines (calculateContributions mode ign rs)) = length (filter (counted ign) rs)"
proof (cases "rs = []")
  case True
  then show ?thesis by (simp add: calculateContributions_def)
next
  case False
  then show ?thesis
    using foldl_addLine [of "[]" ign rs]
    by (simp add: calculateContributions_def sum_sortWith map_lines_toMetrics groupByAuthor_def)
qed

lemma length_counted:
  "length (filter (counted ign) rs) =
     (if ign then length rs - length (filter (\<lambda>r. isBlankLine (content r)) rs) else length rs)"
  using sum_length_filter_compl [of "\<lambda>r. isBlankLine (content r)" rs]
  by (cases ign) (simp_all add: counted_def [abs_def])



subsection \<open>The double-precision percentage\<close>

lemma pow2_powi: "pow2 e = 2 powi e"
  by (simp add: pow2_def power_int_def inverse_eq_divide power_one_over)

lemma pow2_pos: "0 < pow2 e"
  by (simp add: pow2_powi)

lemma pow2_add: "pow2 (a + b) = pow2 a * pow2 b"
  by (simp add: pow2_powi power_int_add)










lemma roundHalfEven_error: "\<bar>of_int (roundHalfEven x) - x\<bar> \<le> 1 / 2"
proof -
  have "of_int \<lfloor>x\<rfloor> \<le> x" and "x < of_int \<lfloor>x\<rfloor> + 1"
    by linarith+
  then show ?thesis
    by (auto simp: roundHalfEven_def Let_def abs_le_iff)
qed

text \<open>The value returned is within half a unit in the last place of the argument.\<close>

lemma binary64_error:
  assumes "0 < x"
  shows "\<bar>binary64 x - x\<bar> \<le> pow2 (floorLog2 x - 53)"
proof -
  define e where "e = floorLog2 x"
  define m where "m = roundHalfEven (x * pow2 (52 - e))"
  have one: "pow2 (52 - e) * pow2 (e - 52) = 1"
    using pow2_add [of "52 - e" "e - 52"] by (simp add: pow2_def)
  have "binary64 x - x = (of_int m - x * pow2 (52 - e)) * pow2 (e - 52)"
    using assms one by (simp add: binary64_def Let_def e_def m_def algebra_simps)
  then have "\<bar>binary64 x - x\<bar> = \<bar>of_int m - x * pow2 (52 - e)\<bar> * pow2 (e - 52)"
    using pow2_pos [of "e - 52"] by (simp add: abs_mult)
  also have "\<dots> \<le> (1 / 2) * pow2 (e - 52)"
    using roundHalfEven_error [of "x * pow2 (52 - e)"] pow2_pos [of "e - 52"]
    unfolding m_def by (intro mult_right_mono) simp_all
  also have "\<dots> = pow2 (e - 53)"
    using pow2_add [of "e - 53" 1] by (simp add: pow2_def)
  finally show ?thesis by (simp add: e_def)
qed



subsection \<open>The claims\<close>

text \<open>
  C5. The \<open>lines\<close> fields of the aggregator's output add up to the number of input
  records, or to that number less the blank ones when \<open>ignoreBlankLines\<close> is set; the
  empty input gives the empty output.
\<close>

theorem lines_sum:
  "sum_list (map lines (calculateContributions mode ign rs)) =
     (if ign then length rs - length (filter (\<lambda>r. isBlankLine (content r)) rs) else length rs) \<and>
   calculateContributions mode ign [] = []"
  by (simp only: lines_counted length_counted) (simp add: calculateContributions_def)




text \<open>
  C7. The output is in descending order of the count value of the active mode (the
  characters when the mode is \<open>characters\<close>, the lines otherwise); three lines of
  Alice's and one of Bob's, counted by lines, rank Alice first with 75 and Bob second
  with 25.
\<close>

theorem ranking:
  "sorted_wrt (\<lambda>a b. countValueOf mode b \<le> countValueOf mode a)
     (calculateContributions mode ign rs) \<and>
   countValueOf ''lines'' m = lines m \<and>
   countValueOf ''characters'' m = characters m \<and>
   calculateContributions ''lines'' False aliceBobLines =
     [\<lparr>author = ''Alice'', lines = 3, characters = 6, percentage = 75\<rparr>,
      \<lparr>author = ''Bob'', lines = 1, characters = 1, percentage = 25\<rparr>]"
proof -
  have "calculateContributions ''lines'' False aliceBobLines =
     [\<lparr>author = ''Alice'', lines = 3, characters = 6, percentage = 75\<rparr>,
      \<lparr>author = ''Bob'', lines = 1, characters = 1, percentage = 25\<rparr>]"
    by code_simp
  moreover have "sorted_wrt (\<lambda>a b. countValueOf mode b \<le> countValueOf mode a)
     (calculateContributions mode ign rs)"
    by (simp add: calculateContributions_def sorted_sortWith)
  moreover have "countValueOf ''lines'' m = lines m"
    by (simp add: countValueOf_def)
  moreover have "countValueOf ''characters'' m = characters m"
    by (simp add: countValueOf_def)
  ultimately show ?thesis by blast
qed

section \<open>Properties of the cache\<close>

lemma length_mapDelete: "length (mapDelete k m) \<le> length m"
  by (simp add: mapDelete_def)

lemma keys_mapDelete: "set (map fst (mapDelete k m)) = set (map fst m) - {k}"
  by (auto simp: mapDelete_def image_iff)

lemma distinct_mapDelete: "distinct (map fst m) \<Longrightarrow> distinct (map fst (mapDelete k m))"
  by (simp add: mapDelete_def distinct_map_filter)

lemma mapDelete_oldest:
  "distinct (map fst (e # m)) \<Longrightarrow> mapDelete (fst e) (e # m) = m"
  by (cases e) (auto simp: mapDelete_def filter_id_conv image_iff)

lemma length_mapSet: "length (mapSet k v m) \<le> length m + 1"
  by (simp add: mapSet_def)

lemma map_fst_mapSet:
  "map fst (mapSet k v m) = (if k \<in> set (map fst m) then map fst m else map fst m @ [k])"
  by (simp add: mapSet_def map_fst_replace)

lemma keys_mapSet: "set (map fst (mapSet k v m)) = insert k (set (map fst m))"
  unfolding map_fst_mapSet by auto

lemma mapGet_mapSet: "mapGet (mapSet k v m) k = Some v"
proof (cases "k \<in> set (map fst m)")
  case False
  then have "map_of m k = None" by (simp add: map_of_eq_None_iff)
  with False show ?thesis by (simp add: mapGet_def mapSet_def map_add_def)
next
  case True
  then have "map_of (map (\<lambda>(k', v'). if k' = k then (k', v) else (k', v')) m) k = Some v"
    by (induction m) auto
  with True show ?thesis by (simp add: mapGet_def mapSet_def)
qed

lemma foldl_mapDelete:
  "foldl (\<lambda>c' key. mapDelete key c') c ks = filter (\<lambda>(k, e). k \<notin> set ks) c"
proof (induction ks arbitrary: c)
  case Nil
  show ?case by simp
next
  case (Cons k ks)
  show ?case
    by (simp add: Cons.IH) (simp add: mapDelete_def case_prod_unfold conj_commute)
qed

lemma invalidate_filter:
  "invalidate p c = filter (\<lambda>(k, e). \<not> startsWith k (p @ '':'')) c"
  unfolding invalidate_def Let_def foldl_mapDelete
  by (rule filter_cong) (auto simp: image_iff)

lemma cleanup_filter:
  "cleanup now c = filter (\<lambda>(k, e). k \<notin> fst ` {x \<in> set c. now - timestamp (snd x) > ttl (snd x)}) c"
  unfolding cleanup_def Let_def foldl_mapDelete
  by (rule filter_cong) (auto simp: image_iff case_prod_unfold)

lemma getCacheKey_prefix: "startsWith (getCacheKey host p txt) (p @ '':'')"
  by (simp add: getCacheKey_def startsWith_def split: option.splits)

lemma getCacheKey_nonempty: "getCacheKey host p txt \<noteq> []"
  by (simp add: getCacheKey_def split: option.splits)

lemma mapGet_filter_out:
  "\<not> P k \<Longrightarrow> mapGet (filter (\<lambda>(k', e). P k') m) k = None"
  by (auto simp: mapGet_def map_of_eq_None_iff)

lemma cacheGet_after_invalidate:
  "cacheGet (getCacheKey host p txt) now (invalidate p c) = (None, invalidate p c)"
proof -
  have "mapGet (invalidate p c) (getCacheKey host p txt) = None"
    unfolding invalidate_filter
    using mapGet_filter_out [of "\<lambda>k. \<not> startsWith k (p @ '':'')" "getCacheKey host p txt" c]
    by (simp add: getCacheKey_prefix)
  then show ?thesis
    by (simp add: cacheGet_def)
qed

lemma cacheInv_filter: "cacheInv c \<Longrightarrow> cacheInv (filter P c)"
  using le_trans [OF length_filter_le [of P c]]
  by (auto simp: cacheInv_def distinct_map_filter)

lemma cacheInv_mapDelete: "cacheInv c \<Longrightarrow> cacheInv (mapDelete k c)"
  unfolding mapDelete_def by (rule cacheInv_filter)

lemma cacheSet_full:
  assumes "cacheInv c" and "maxCacheSize \<le> length c"
  shows "cacheSet key d t now c = mapSet key \<lparr>data = d, timestamp = now, ttl = t\<rparr> (tl c)"
proof -
  from assms(2) obtain e m where c: "c = e # m"
    by (cases c) (simp_all add: maxCacheSize_def)
  from assms(1) c have "fst e \<noteq> []" and "distinct (map fst (e # m))"
    by (auto simp: cacheInv_def)
  then show ?thesis
    using assms(2) mapDelete_oldest [of e m] by (simp add: cacheSet_def c)
qed

lemma cacheInv_cacheSet:
  assumes "cacheInv c" and "key \<noteq> []"
  shows "cacheInv (cacheSet key d t now c)"
proof -
  let ?e = "\<lparr>data = d, timestamp = now, ttl = t\<rparr>"
  have *: "cacheInv (mapSet key ?e m)" if "length m < maxCacheSize" and "distinct (map fst m)"
    and "[] \<notin> set (map fst m)" for m
    using that assms(2) length_mapSet [of key ?e m] distinct_mapSet [of m key ?e]
    unfolding cacheInv_def keys_mapSet by auto
  show ?thesis
  proof (cases "maxCacheSize \<le> length c")
    case True
    with assms(1) have len: "length c = maxCacheSize" by (simp add: cacheInv_def)
    then have "c \<noteq> []" by (auto simp: maxCacheSize_def)
    with len have "length (tl c) < maxCacheSize" by (simp add: maxCacheSize_def)
    moreover from assms(1) have "distinct (map fst (tl c))"
      by (simp add: cacheInv_def distinct_tl map_tl)
    moreover from assms(1) \<open>c \<noteq> []\<close> have "[] \<notin> set (map fst (tl c))"
      unfolding cacheInv_def by (cases c) auto
    ultimately show ?thesis
      unfolding cacheSet_full [OF assms(1) True] by (rule *)
  next
    case False
    then have "cacheSet key d t now c = mapSet key ?e c"
      by (simp add: cacheSet_def)
    moreover from False assms(1) have "cacheInv (mapSet key ?e c)"
      by (intro *) (simp_all add: cacheInv_def)
    ultimately show ?thesis by simp
  qed
qed

lemma reachable_cacheInv: "reachable c \<Longrightarrow> cacheInv c"
proof (induction rule: reachable.induct)
  case start
  show ?case by (simp add: cacheInv_def)
next
  case (store c key d t now)
  then show ?case by (simp add: cacheInv_cacheSet)
next
  case (lookup c key now)
  then show ?case
    by (auto simp: cacheGet_def cacheInv_mapDelete split: option.splits)
next
  case (invalidated c filePath)
  then show ?case by (simp add: invalidate_filter cacheInv_filter)
next
  case (swept c now)
  then show ?case by (simp add: cleanup_def Let_def foldl_mapDelete cacheInv_filter)
next
  case (cleared c)
  show ?case by (simp add: clear_def cacheInv_def)
qed

lemma reachable_fillCache: "reachable (fillCache n)"
  by (induction n) (simp_all add: reachable.start reachable.store getCacheKey_nonempty)

text \<open>
  C3, as the claim states it, fails: \<open>invalidate\<close> matches keys by the prefix
  \<open>filePath + ':'\<close>, and the fingerprint of another file whose path begins with that
  prefix matches too. Here the cache holds one entry, for the file \<open>/w/notes:old.txt\<close>,
  and invalidating \<open>/w/notes\<close> removes it.
\<close>

theorem invalidate_removes_other_path:
  "getCacheKey demoHost ''/w/notes:old.txt'' ''hello world'' =
     ''/w/notes:old.txt:1700000000000:11:5eb63bbb'' \<and>
   invalidate ''/w/notes''
     (cacheSet (getCacheKey demoHost ''/w/notes:old.txt'' ''hello world'') aliceAlone
        defaultTTL 0 []) = []"
  by code_simp

text \<open>
  C3, amended. \<open>invalidate p\<close> removes exactly the entries whose key starts with \<open>p\<close>
  followed by a colon, whatever their age, and keeps the others in their order. Every
  fingerprint of \<open>p\<close> starts so; hence a lookup of a fingerprint of \<open>p\<close> right after
  the invalidation misses, at any time and for any content.
\<close>

theorem invalidate_effect:
  "invalidate p c = filter (\<lambda>(k, e). \<not> startsWith k (p @ '':'')) c \<and>
   startsWith (getCacheKey host p txt) (p @ '':'') \<and>
   cacheGet (getCacheKey host p txt) now (invalidate p c) = (None, invalidate p c)"
proof -
  have "mapGet (invalidate p c) (getCacheKey host p txt) = None"
    unfolding invalidate_filter
    using mapGet_filter_out [of "\<lambda>k. \<not> startsWith k (p @ '':'')" "getCacheKey host p txt" c]
    by (simp add: getCacheKey_prefix)
  then show ?thesis
    by (simp add: cacheGet_def invalidate_filter [symmetric] getCacheKey_prefix)
qed

text \<open>
  C8. A cache reached from the empty one by the operations of the class, storing under
  fingerprints, never holds more than 100 entries: when it holds 100, \<open>set\<close> first
  drops the entry inserted first (the head of the insertion order), and so the cache
  after storing under a fingerprint is within the bound again.
\<close>

theorem cache_bounded:
  assumes "reachable c"
  shows "length c \<le> maxCacheSize \<and> maxCacheSize = 100 \<and>
         (maxCacheSize \<le> length c \<longrightarrow>
            cacheSet key d t now c = mapSet key \<lparr>data = d, timestamp = now, ttl = t\<rparr> (tl c)) \<and>
         length (cacheSet (getCacheKey host p txt) d t now c) \<le> maxCacheSize"
proof -
  from assms have inv: "cacheInv c" by (rule reachable_cacheInv)
  have "reachable (cacheSet (getCacheKey host p txt) d t now c)"
    using assms getCacheKey_nonempty by (rule reachable.store)
  then have "cacheInv (cacheSet (getCacheKey host p txt) d t now c)"
    by (rule reachable_cacheInv)
  with inv cacheSet_full [OF inv] show ?thesis
    by (simp add: cacheInv_def maxCacheSize_def)
qed

theorem cache_bounded_witness:
  "reachable (fillCache 150) \<and>
   length (fillCache 150) \<le> maxCacheSize \<and>
   length (cacheSet (getCacheKey demoHost ''/w/g.txt'' ''hello world'') aliceAlone defaultTTL 0
             (fillCache 150)) \<le> maxCacheSize"
proof -
  have r: "reachable (fillCache 150)"
    by (rule reachable_fillCache)
  from cache_bounded [OF r] r show ?thesis
    by blast
qed

section \<open>Properties of the orchestration\<close>

text \<open>A run served from the cache.\<close>

lemma updateContributors_hit:
  assumes "\<not> rat_of_nat (byteLength txt) / 1024 > maxFileSizeKB cfg"
    and "isInGitRepository host p"
    and "mapGet (cache w) (getCacheKey host p txt) = Some e"
    and "\<not> now - timestamp e > ttl e"
  shows "updateContributors cfg host now nowSet p txt w = (Contributors (data e), w)"
  using assms by (simp add: updateContributors_def Let_def cacheGet_def)

text \<open>A run that ran \<open>git blame\<close> and showed contributors has stored them.\<close>

lemma updateContributors_stored:
  assumes "updateContributors cfg host g s p txt w = (Contributors ms, w1)"
    and "blameCalls w1 = blameCalls w + 1"
  shows "\<not> rat_of_nat (byteLength txt) / 1024 > maxFileSizeKB cfg"
    and "isInGitRepository host p"
    and "mapGet (cache w1) (getCacheKey host p txt) = Some \<lparr>data = ms, timestamp = s, ttl = defaultTTL\<rparr>"
proof -
  show small: "\<not> rat_of_nat (byteLength txt) / 1024 > maxFileSizeKB cfg"
    using assms(1) by (auto simp: updateContributors_def Let_def)
  show repo: "isInGitRepository host p"
    using assms(1) small by (auto simp: updateContributors_def Let_def split: if_splits)
  obtain r c1 where g: "cacheGet (getCacheKey host p txt) g (cache w) = (r, c1)"
    by (cases "cacheGet (getCacheKey host p txt) g (cache w)")
  have miss: "r = None"
  proof (cases r)
    case None
    then show ?thesis .
  next
    case (Some cs)
    with assms(1) small repo g have "w1 = w\<lparr>cache := c1\<rparr>"
      by (simp add: updateContributors_def Let_def)
    with assms(2) show ?thesis by simp
  qed
  show "mapGet (cache w1) (getCacheKey host p txt) = Some \<lparr>data = ms, timestamp = s, ttl = defaultTTL\<rparr>"
    using assms(1) small repo g miss
    by (auto simp: updateContributors_def Let_def getBlameData_def mapGet_mapSet cacheSet_def
          split: sum.splits)
qed

text \<open>Saving the active document: whatever the cache held, the request that follows the
  invalidation runs \<open>git blame\<close>.\<close>

lemma handleDocumentSave_recomputes:
  assumes "\<not> rat_of_nat (byteLength txt) / 1024 > maxFileSizeKB cfg"
    and "isInGitRepository host p"
  shows "blameCalls (snd (handleDocumentSave cfg host g s p txt w)) = blameCalls w + 1"
  using assms
  by (auto simp: handleDocumentSave_def updateContributors_def Let_def getBlameData_def
        cacheGet_after_invalidate split: sum.splits)

text \<open>
  C2, as the claim states it, fails: a cache entry lives 30 seconds. The first request
  stores its result at time 5; the second, identical request looks the cache up at time
  30006, finds the entry expired and runs \<open>git blame\<close> a second time.
\<close>

theorem second_run_after_ttl:
  "updateContributors defaultConfig demoHost 0 5 ''/w/f.txt'' ''hello world'' emptyWorld =
     (Contributors aliceAlone, worldAfterFirstRun) \<and>
   blameCalls (snd (updateContributors defaultConfig demoHost 30006 30007 ''/w/f.txt''
     ''hello world'' worldAfterFirstRun)) = 2"
  by code_simp

text \<open>
  C2, amended. When the first run has computed its result (it ran \<open>git blame\<close>) and
  stored it at time \<open>s1\<close>, a second run for the same path and content, on the same host
  and configuration and with nothing in between, whose cache lookup happens at a time
  \<open>g2\<close> with \<open>g2 - s1 \<le> 30000\<close>, returns the same contributors and leaves the state as
  it is: the cache is unchanged and \<open>git blame\<close> is not run again.
\<close>

theorem second_run_cached:
  assumes "updateContributors cfg host g1 s1 p txt w = (Contributors ms, w1)"
    and "blameCalls w1 = blameCalls w + 1"
    and "g2 - s1 \<le> defaultTTL"
  shows "updateContributors cfg host g2 s2 p txt w1 = (Contributors ms, w1)"
  using updateContributors_hit [OF updateContributors_stored [OF assms(1,2)], of g2 s2] assms(3)
  by simp

theorem second_run_cached_witness:
  "updateContributors defaultConfig demoHost 0 5 ''/w/f.txt'' ''hello world'' emptyWorld =
     (Contributors aliceAlone, worldAfterFirstRun) \<and>
   blameCalls worldAfterFirstRun = blameCalls emptyWorld + 1 \<and>
   30005 - 5 \<le> defaultTTL \<and>
   updateContributors defaultConfig demoHost 30005 30006 ''/w/f.txt'' ''hello world''
     worldAfterFirstRun = (Contributors aliceAlone, worldAfterFirstRun)"
proof -
  have run1: "updateContributors defaultConfig demoHost 0 5 ''/w/f.txt'' ''hello world''
      emptyWorld = (Contributors aliceAlone, worldAfterFirstRun)"
    by code_simp
  have calls: "blameCalls worldAfterFirstRun = blameCalls emptyWorld + 1"
    by (simp add: worldAfterFirstRun_def emptyWorld_def)
  have fresh: "30005 - 5 \<le> defaultTTL"
    by (simp add: defaultTTL_def)
  from second_run_cached [OF run1 calls fresh] run1 calls fresh show ?thesis
    by blast
qed

lemma byteLength_replicate:
  "(of_char ch :: nat) < 128 \<Longrightarrow> byteLength (replicate n ch) = n"
  by (induction n) (simp_all add: byteLength_def)

lemma updateContributors_too_large:
  "rat_of_nat (byteLength txt) / 1024 > maxFileSizeKB cfg \<Longrightarrow>
   updateContributors cfg host g s p txt w =
     (FileTooLarge (mathRound (rat_of_nat (byteLength txt) / 1024)) (maxFileSizeKB cfg), w)"
  by (simp add: updateContributors_def Let_def)

lemma showContributors_miss:
  assumes "isInGitRepository host p" and "mapGet (cache w) (getCacheKey host p txt) = None"
  shows "blameCalls (snd (showContributors cfg host g s (Some (p, txt)) None w)) = blameCalls w + 1"
  using assms
  by (auto simp: showContributors_def Let_def cacheGet_def getBlameData_def split: sum.splits)

lemma bigContent_size: "byteLength bigContent = 3000 * 1024"
  unfolding bigContent_def by (rule byteLength_replicate) simp

text \<open>
  C9. The claim: a request whose content exceeds the limit ends in \<open>FileTooLarge\<close>
  with no history query, on every entry point. \<open>updateContributors\<close> does so;
  \<open>showContributors\<close> has no size check: for a text of 3000 KB under the limit of
  2048 KB, in a repository and with an empty cache, it runs \<open>git blame\<close>.
\<close>

theorem show_ignores_size_limit:
  "byteLength bigContent = 3000 * 1024 \<and>
   updateContributors defaultConfig demoHost 0 0 ''/w/big.txt'' bigContent emptyWorld =
     (FileTooLarge 3000 2048, emptyWorld) \<and>
   blameCalls (snd (showContributors defaultConfig demoHost 0 0
     (Some (''/w/big.txt'', bigContent)) None emptyWorld)) = 1"
proof -
  have big: "rat_of_nat (byteLength bigContent) / 1024 > maxFileSizeKB defaultConfig"
    by (simp add: bigContent_size defaultConfig_def)
  have r: "mathRound (rat_of_nat (byteLength bigContent) / 1024) = 3000"
    by (simp add: bigContent_size mathRound_def floor_eq_iff)
  have u: "updateContributors defaultConfig demoHost 0 0 ''/w/big.txt'' bigContent emptyWorld =
     (FileTooLarge 3000 2048, emptyWorld)"
    using updateContributors_too_large [OF big, of demoHost 0 0 "''/w/big.txt''" emptyWorld]
    by (simp add: r defaultConfig_def)
  have s: "blameCalls (snd (showContributors defaultConfig demoHost 0 0
     (Some (''/w/big.txt'', bigContent)) None emptyWorld)) = 1"
    using showContributors_miss [of demoHost "''/w/big.txt''" emptyWorld bigContent defaultConfig 0 0]
    by (simp add: demoHost_def emptyWorld_def mapGet_def)
  from bigContent_size u s show ?thesis by blast
qed

end
